theory Spec2Isabelle
  imports Complex_Main "HOL-Library.Char_ord" "HOL-Library.List_Lexorder"
begin

section \<open>The transaction frame and the customer profile (rfm_analysis.py)\<close>

text \<open>
  A transaction frame is the list of its rows. The columns that
  \<open>rfm_segmentation_analysis\<close> reads are fields of the record; every other column of the
  frame lives in the extension part of the record (\<open>txn.more\<close>). Cells are non-null: the
  function's docstring asks for a cleaned frame.

  The \<open>order_date\<close> column holds either text (a frame read without date parsing) or a
  timestamp, counted in nanoseconds as pandas does. Amounts and all float64 arithmetic
  are exact rationals here; rounding of binary floating point is outside the model.
\<close>

datatype date_cell = DateStr string | Timestamp int

record txn =
  customer_id :: string
  order_date :: date_cell
  transaction_id :: string
  final_amount_inr :: rat

text \<open>One row of the \<open>rfm\<close> table after the aggregation of lines 27 to 35.\<close>

record metrics =
  m_customer_id :: string
  m_recency :: int
  m_frequency :: int
  m_monetary :: rat

text \<open>
  One row of the \<open>rfm\<close> table the function returns. A score is \<open>None\<close> where pandas
  holds NaN.
\<close>

record rfm_row =
  rfm_customer_id :: string
  recency :: int
  frequency :: int
  monetary :: rat
  r_score :: "int option"
  f_score :: "int option"
  m_score :: "int option"
  rfm_score :: "int option"
  segment :: string

text \<open>
  The part of the returned dictionary that is data: the \<open>rfm\<close> table and the
  \<open>statistics\<close> entry. The figure and the rounded \<open>segment_summary\<close> are renderings of
  the \<open>rfm\<close> table.
\<close>

record rfm_result =
  rfm :: "rfm_row list"
  total_customers :: nat
  champion_count :: nat
  avg_clv :: rat

text \<open>
  The exceptions of the dataframe library that the modelled code can meet are Python
  \<open>ValueError\<close>s: from \<open>pd.to_datetime\<close> on text that is no date, from \<open>pd.qcut\<close>
  ("Bin labels must be one fewer than the number of bin edges"), and from
  \<open>astype(int)\<close> on a column that holds NaN.
\<close>

datatype error = ValueError_date_parse | ValueError_bin_labels | ValueError_nan_to_int

section \<open>Library operations used by the procedure\<close>

subsection \<open>pd.to_datetime\<close>

text \<open>
  \<open>pd.to_datetime\<close> leaves a timestamp as it is and parses text; the parser of the
  library is a parameter, \<open>None\<close> where it rejects the text. With the default
  \<open>errors='raise'\<close> one rejected cell makes the whole call raise.
\<close>

definition to_datetime_cell :: "(string \<Rightarrow> int option) \<Rightarrow> date_cell \<Rightarrow> int option" where
  "to_datetime_cell parse c = (case c of Timestamp t \<Rightarrow> Some t | DateStr s \<Rightarrow> parse s)"

definition to_datetime :: "(string \<Rightarrow> int option) \<Rightarrow> date_cell list \<Rightarrow> error + int list" where
  "to_datetime parse cells =
     (if list_all (\<lambda>c. to_datetime_cell parse c \<noteq> None) cells
      then Inr (map (\<lambda>c. the (to_datetime_cell parse c)) cells)
      else Inl ValueError_date_parse)"

text \<open>\<open>pd.Timedelta(days=1)\<close> in nanoseconds.\<close>

definition one_day :: int where
  "one_day = 86400000000000"

text \<open>\<open>Timedelta.days\<close>: the whole days of a duration, rounded towards minus infinity.\<close>

definition days :: "int \<Rightarrow> int" where
  "days d = d div one_day"

subsection \<open>Series.rank(method='first')\<close>

text \<open>
  The rank of a value is one more than the number of values that sort before it, where
  equal values sort in the order in which they appear in the column.
\<close>

definition rank_first :: "int list \<Rightarrow> rat list" where
  "rank_first xs =
     map (\<lambda>i. of_nat (Suc (length (filter (\<lambda>j. xs ! j < xs ! i \<or> (xs ! j = xs ! i \<and> j < i))
                                      [0..<length xs]))))
         [0..<length xs]"

subsection \<open>pd.qcut\<close>

text \<open>
  \<open>Series.quantile\<close> with linear interpolation, at the point \<open>k / q\<close> of
  \<open>np.linspace(0, 1, q + 1)\<close>, over the sorted values \<open>s\<close>: the position is
  \<open>(n - 1) * k / q\<close>, and the value is interpolated between its two neighbours.
\<close>

definition quantile :: "rat list \<Rightarrow> nat \<Rightarrow> nat \<Rightarrow> rat" where
  "quantile s k q =
     (let n = length s;
          t = (n - 1) * k;
          lo = t div q;
          hi = min (lo + 1) (n - 1);
          g = of_nat (t mod q) / of_nat q
      in s ! lo + (s ! hi - s ! lo) * g)"

definition quantile_edges :: "rat list \<Rightarrow> nat \<Rightarrow> rat list" where
  "quantile_edges xs q = map (\<lambda>k. quantile (sort xs) k q) [0..<q + 1]"

text \<open>\<open>algos.unique\<close>: the distinct values in order of first appearance.\<close>

fun unique :: "'a list \<Rightarrow> 'a list" where
  "unique [] = []"
| "unique (x # xs) = x # unique (filter (\<lambda>y. y \<noteq> x) xs)"

text \<open>
  \<open>bins.searchsorted(x, side='left')\<close> on the ascending edges: the index of the first
  edge that is not below \<open>x\<close>.
\<close>

definition searchsorted_left :: "rat list \<Rightarrow> rat \<Rightarrow> nat" where
  "searchsorted_left bins x = length (takeWhile (\<lambda>b. b < x) bins)"

text \<open>
  \<open>_bins_to_cuts\<close> with \<open>right=True\<close>, \<open>include_lowest=True\<close>, \<open>duplicates='drop'\<close> and
  a list of labels. Duplicate edges are dropped first; a value equal to the lowest edge
  goes to the first bin; a value in no bin is NaN; and the number of labels is checked
  against the number of edges that are left.
\<close>

definition bin_id :: "rat list \<Rightarrow> rat \<Rightarrow> nat" where
  "bin_id bins x = (if x = hd bins then 1 else searchsorted_left bins x)"

definition bins_to_cuts :: "rat list \<Rightarrow> rat list \<Rightarrow> int list \<Rightarrow> error + int option list" where
  "bins_to_cuts xs bins0 labels =
     (let unique_bins = unique bins0;
          bins = (if length unique_bins < length bins0 \<and> length bins0 \<noteq> 2
                  then unique_bins else bins0)
      in if int (length labels) \<noteq> int (length bins) - 1
         then Inl ValueError_bin_labels
         else Inr (map (\<lambda>x. let i = bin_id bins x
                             in if i = length bins \<or> i = 0 then None
                                else Some (labels ! (i - 1))) xs))"

text \<open>
  \<open>pd.qcut(x, q, labels=labels, duplicates='drop')\<close>. The quantiles of an empty column
  are all NaN, which \<open>unique\<close> collapses to a single edge (two edges stay two).
\<close>

definition qcut :: "rat list \<Rightarrow> nat \<Rightarrow> int list \<Rightarrow> error + int option list" where
  "qcut xs q labels =
     (if xs = []
      then (if int (length labels) \<noteq> (if q + 1 = 2 then 2 else 1) - 1
            then Inl ValueError_bin_labels else Inr [])
      else bins_to_cuts xs (quantile_edges xs q) labels)"

text \<open>
  The quartile rank of the specification, written from its words: with the five edges
  of the equal-population cut of the whole column, a value has rank 1 up to the second
  edge, rank 2 up to the third, rank 3 up to the fourth and rank 4 above it.
\<close>

definition quartile_rank :: "rat list \<Rightarrow> rat \<Rightarrow> nat" where
  "quartile_rank xs x =
     (let e = quantile_edges xs 4
      in if x \<le> e ! 1 then 1 else if x \<le> e ! 2 then 2 else if x \<le> e ! 3 then 3 else 4)"

section \<open>The segmentation procedure\<close>

text \<open>The nested function \<open>segment_customer\<close>; every comparison with NaN is false.\<close>

definition score_ge :: "int option \<Rightarrow> int \<Rightarrow> bool" where
  "score_ge score k = (case score of None \<Rightarrow> False | Some s \<Rightarrow> s \<ge> k)"

definition segment_customer :: "int option \<Rightarrow> string" where
  "segment_customer score =
     (if score_ge score 10 then ''Champions''
      else if score_ge score 8 then ''Loyal Customers''
      else if score_ge score 6 then ''Potential Loyalists''
      else if score_ge score 4 then ''At Risk''
      else ''Lost'')"

text \<open>Addition of two score columns; NaN propagates.\<close>

definition score_add :: "int option \<Rightarrow> int option \<Rightarrow> int option" where
  "score_add a b = (case (a, b) of (Some x, Some y) \<Rightarrow> Some (x + y) | _ \<Rightarrow> None)"

text \<open>
  Line 24: the reference date, from the converted \<open>order_date\<close> column. (On an empty
  frame pandas has NaT here; no group exists then and the value is never read.)
\<close>

definition reference_date :: "int list \<Rightarrow> int" where
  "reference_date dates = Max (set dates) + one_day"

text \<open>
  Lines 27 to 35: \<open>groupby('customer_id')\<close> makes one group per distinct customer, in
  ascending order of the key; the aggregation takes the days from the group's latest
  date to the reference date, the number of rows, and the sum of the amounts. The rows
  come paired with their converted dates.
\<close>

definition group_keys :: "('a txn_scheme \<times> int) list \<Rightarrow> string list" where
  "group_keys rows = sort (remdups (map (\<lambda>(r, d). customer_id r) rows))"

definition group_rows :: "('a txn_scheme \<times> int) list \<Rightarrow> string \<Rightarrow> ('a txn_scheme \<times> int) list" where
  "group_rows rows k = filter (\<lambda>(r, d). customer_id r = k) rows"

definition rfm_metrics :: "('a txn_scheme \<times> int) list \<Rightarrow> metrics list" where
  "rfm_metrics rows =
     (let ref = reference_date (map snd rows)
      in map (\<lambda>k. let g = group_rows rows k
                  in \<lparr>m_customer_id = k,
                      m_recency = days (ref - Max (set (map snd g))),
                      m_frequency = int (length g),
                      m_monetary = sum_list (map (\<lambda>(r, d). final_amount_inr r) g)\<rparr>)
             (group_keys rows))"

text \<open>
  Lines 37 to 48: the three score columns and their sum. \<open>pd.to_numeric\<close> turns the
  categorical result of \<open>qcut\<close> into numbers and leaves the values as they are.
\<close>

definition recency_column :: "metrics list \<Rightarrow> rat list" where
  "recency_column ms = map (\<lambda>m. of_int (m_recency m)) ms"

definition frequency_rank_column :: "metrics list \<Rightarrow> rat list" where
  "frequency_rank_column ms = rank_first (map m_frequency ms)"

definition monetary_column :: "metrics list \<Rightarrow> rat list" where
  "monetary_column ms = map m_monetary ms"

text \<open>Lines 48 to 63, for one row: the sum of the scores and the segment.\<close>

definition make_row :: "metrics \<Rightarrow> int option \<times> int option \<times> int option \<Rightarrow> rfm_row" where
  "make_row m s =
     (case s of (rs, fs, ms) \<Rightarrow>
        let total = score_add (score_add rs fs) ms
        in \<lparr>rfm_customer_id = m_customer_id m, recency = m_recency m,
            frequency = m_frequency m, monetary = m_monetary m,
            r_score = rs, f_score = fs, m_score = ms,
            rfm_score = total, segment = segment_customer total\<rparr>)"

definition score_table :: "metrics list \<Rightarrow> error + rfm_row list" where
  "score_table ms =
     (case qcut (recency_column ms) 4 [4, 3, 2, 1] of
        Inl e \<Rightarrow> Inl e
      | Inr rs \<Rightarrow>
     (case qcut (frequency_rank_column ms) 4 [1, 2, 3, 4] of
        Inl e \<Rightarrow> Inl e
      | Inr fs \<Rightarrow>
     (case qcut (monetary_column ms) 4 [1, 2, 3, 4] of
        Inl e \<Rightarrow> Inl e
      | Inr mos \<Rightarrow> Inr (map (\<lambda>(m, s). make_row m s) (zip ms (zip rs (zip fs mos)))))))"

definition make_result :: "rfm_row list \<Rightarrow> rfm_result" where
  "make_result t =
     \<lparr>rfm = t,
      total_customers = length t,
      champion_count = length (filter (\<lambda>p. segment p = ''Champions'') t),
      avg_clv = sum_list (map monetary t) / of_nat (length t)\<rparr>"

text \<open>
  The whole call. Line 21 assigns the converted column to the caller's frame, so the
  frame after the call is part of what the call produces; when the conversion raises,
  the assignment has not happened.
\<close>

definition set_order_date :: "'a txn_scheme list \<Rightarrow> int list \<Rightarrow> 'a txn_scheme list" where
  "set_order_date df dates = map (\<lambda>(r, d). r\<lparr>order_date := Timestamp d\<rparr>) (zip df dates)"

definition rfm_segmentation_analysis ::
  "(string \<Rightarrow> int option) \<Rightarrow> 'a txn_scheme list \<Rightarrow> 'a txn_scheme list \<times> (error + rfm_result)" where
  "rfm_segmentation_analysis parse df =
     (case to_datetime parse (map order_date df) of
        Inl e \<Rightarrow> (df, Inl e)
      | Inr dates \<Rightarrow>
          (set_order_date df dates,
           case score_table (rfm_metrics (zip df dates)) of
             Inl e \<Rightarrow> Inl e
           | Inr t \<Rightarrow> Inr (make_result t)))"


text \<open>
  The scores of row \<open>i\<close> of the aggregated table in the words of the specification:
  the inverted quartile rank of the recency, the quartile rank of the first-come rank
  of the frequency, and the quartile rank of the monetary value.
\<close>

definition scores_of :: "metrics list \<Rightarrow> nat \<Rightarrow> int option \<times> int option \<times> int option" where
  "scores_of ms i =
     (Some (5 - int (quartile_rank (recency_column ms) (recency_column ms ! i))),
      Some (int (quartile_rank (frequency_rank_column ms) (frequency_rank_column ms ! i))),
      Some (int (quartile_rank (monetary_column ms) (monetary_column ms ! i))))"




text \<open>
  A cell of \<open>order_date\<close> that already is a timestamp, and what the aggregation reads
  of a row: the customer, the converted date and the amount.
\<close>

definition is_timestamp :: "date_cell \<Rightarrow> bool" where
  "is_timestamp c = (case c of Timestamp t \<Rightarrow> True | DateStr s \<Rightarrow> False)"

definition row_key :: "'a txn_scheme \<times> int \<Rightarrow> string \<times> int \<times> rat" where
  "row_key x = (customer_id (fst x), snd x, final_amount_inr (fst x))"

section \<open>The database manager (db_analytics.py)\<close>













section \<open>The RFM page of the application (app_main.py, eda_q3)\<close>

text \<open>
  \<open>eda_q3\<close> has no parameter; what it could read is the state of the process: the
  global generator of \<open>np.random\<close> and the loaded transaction frame. The generator of
  the library is a parameter: \<open>seed\<close> gives the state for a seed, and each draw returns
  the sample, of the size asked for, and the next state.
\<close>

record 'g np_random =
  seed :: "nat \<Rightarrow> 'g"
  exponential :: "rat \<Rightarrow> nat \<Rightarrow> 'g \<Rightarrow> rat list \<times> 'g"
  lognormal :: "rat \<Rightarrow> rat \<Rightarrow> nat \<Rightarrow> 'g \<Rightarrow> rat list \<times> 'g"

record ('g, 'd) app_state =
  random_state :: 'g
  loaded_df :: 'd

record eda_row =
  Customer_ID :: string
  Recency :: int
  Frequency :: int
  Monetary :: int
  R_Score :: int
  F_Score :: int
  M_Score :: int
  RFM_Score :: int
  Segment :: string

text \<open>\<open>astype(int)\<close> on floats truncates towards zero; \<open>np.clip\<close> bounds a value.\<close>

definition astype_int :: "rat \<Rightarrow> int" where
  "astype_int x = (if 0 \<le> x then \<lfloor>x\<rfloor> else \<lceil>x\<rceil>)"

definition clip :: "int \<Rightarrow> int \<Rightarrow> int \<Rightarrow> int" where
  "clip x lo hi = min (max x lo) hi"

text \<open>\<open>astype(int)\<close> on the result of \<open>qcut\<close> raises when a value is NaN.\<close>

definition scores_astype_int :: "int option list \<Rightarrow> error + int list" where
  "scores_astype_int xs = (if list_all (\<lambda>x. x \<noteq> None) xs then Inr (map the xs) else Inl ValueError_nan_to_int)"

definition qcut_int :: "rat list \<Rightarrow> nat \<Rightarrow> int list \<Rightarrow> error + int list" where
  "qcut_int xs q labels = (case qcut xs q labels of Inl e \<Rightarrow> Inl e | Inr ys \<Rightarrow> scores_astype_int ys)"

text \<open>The format \<open>CUST_{i:05d}\<close>, for the indices below 100000 that the page uses.\<close>

definition digit_char :: "nat \<Rightarrow> char" where
  "digit_char d = char_of (48 + d)"

definition cust_label :: "nat \<Rightarrow> string" where
  "cust_label i = ''CUST_'' @ map (\<lambda>k. digit_char ((i div 10 ^ k) mod 10)) [4, 3, 2, 1, 0]"

definition n_customers :: nat where
  "n_customers = 45000"

text \<open>The nested function \<open>segment_customer(r, f, m)\<close> of the page.\<close>

definition eda_segment_customer :: "int \<Rightarrow> int \<Rightarrow> int \<Rightarrow> string" where
  "eda_segment_customer r f m =
     (if r \<ge> 4 \<and> f \<ge> 4 \<and> m \<ge> 4 then ''VIP (Champions)''
      else if r \<ge> 3 \<and> f \<ge> 3 \<and> m \<ge> 3 then ''Loyal (Loyal Customers)''
      else if r \<ge> 2 \<and> f \<ge> 2 \<and> m \<ge> 2 then ''Potential (Potential)''
      else if r \<ge> 2 \<and> (f \<ge> 2 \<or> m \<ge> 2) then ''At-Risk (At Risk)''
      else ''Lost (Lost Customers)'')"

definition eda_make_row :: "nat \<Rightarrow> int \<times> int \<times> int \<Rightarrow> int \<times> int \<times> int \<Rightarrow> eda_row" where
  "eda_make_row i v s =
     (case (v, s) of ((re, fr, mo), (r, f, m)) \<Rightarrow>
        \<lparr>Customer_ID = cust_label i, Recency = re, Frequency = fr, Monetary = mo,
         R_Score = r, F_Score = f, M_Score = m,
         RFM_Score = r + f + m, Segment = eda_segment_customer r f m\<rparr>)"

text \<open>
  The scoring of the page, lines 398 to 419, on the three generated columns: quintile
  scores 1 to 5, the frequency and the monetary value both through their first-come
  ranks.
\<close>

definition eda_score_table :: "int list \<Rightarrow> int list \<Rightarrow> int list \<Rightarrow> error + eda_row list" where
  "eda_score_table recency_v frequency_v monetary_v =
     (case qcut_int (map of_int recency_v) 5 [5, 4, 3, 2, 1] of
        Inl e \<Rightarrow> Inl e
      | Inr rs \<Rightarrow>
     (case qcut_int (rank_first frequency_v) 5 [1, 2, 3, 4, 5] of
        Inl e \<Rightarrow> Inl e
      | Inr fs \<Rightarrow>
     (case qcut_int (rank_first monetary_v) 5 [1, 2, 3, 4, 5] of
        Inl e \<Rightarrow> Inl e
      | Inr mos \<Rightarrow>
          Inr (map (\<lambda>(i, v, s). eda_make_row i v s)
                 (zip [0..<n_customers]
                    (zip (zip recency_v (zip frequency_v monetary_v))
                         (zip rs (zip fs mos))))))))"

text \<open>
  The page up to its tables: the generator is seeded with 42, the three columns are
  drawn, truncated and clipped, and scored. What is returned is the state of the
  process after the call and the scored table that every chart and metric of the page
  is computed from.
\<close>

definition eda_q3 ::
  "'g np_random \<Rightarrow> ('g, 'd) app_state \<Rightarrow> ('g, 'd) app_state \<times> (error + eda_row list)" where
  "eda_q3 np st =
     (let g0 = seed np 42;
          (recency_f, g1) = exponential np 80 n_customers g0;
          recency_v = map (\<lambda>x. clip (astype_int x) 0 365) recency_f;
          (frequency_f, g2) = exponential np 8 n_customers g1;
          frequency_v = map (\<lambda>x. clip (astype_int x) 1 100) frequency_f;
          (monetary_f, g3) = lognormal np (19 / 2) (3 / 2) n_customers g2;
          monetary_v = map (\<lambda>x. clip (astype_int x) 1000 200000) monetary_f
      in (st\<lparr>random_state := g3\<rparr>, eda_score_table recency_v frequency_v monetary_v))"

section \<open>Example inputs\<close>

text \<open>
  A parser that knows two dates, with the values \<open>pd.to_datetime\<close> gives them, stands in
  for the library's parser in the examples.
\<close>

definition example_parse :: "string \<Rightarrow> int option" where
  "example_parse s =
     (if s = ''1970-01-01'' then Some 0
      else if s = ''1970-01-04'' then Some (3 * one_day)
      else None)"

text \<open>Three customers; customer B bought twice, and one date is still text.\<close>

definition example_frame :: "txn list" where
  "example_frame =
     [\<lparr>customer_id = ''B'', order_date = Timestamp (10 * one_day),
       transaction_id = ''T1'', final_amount_inr = 100\<rparr>,
      \<lparr>customer_id = ''A'', order_date = DateStr ''1970-01-01'',
       transaction_id = ''T2'', final_amount_inr = 50\<rparr>,
      \<lparr>customer_id = ''B'', order_date = Timestamp (12 * one_day + 5),
       transaction_id = ''T3'', final_amount_inr = 25\<rparr>,
      \<lparr>customer_id = ''C'', order_date = DateStr ''1970-01-04'',
       transaction_id = ''T4'', final_amount_inr = 7\<rparr>]"

definition example_frame_after :: "txn list" where
  "example_frame_after =
     [\<lparr>customer_id = ''B'', order_date = Timestamp (10 * one_day),
       transaction_id = ''T1'', final_amount_inr = 100\<rparr>,
      \<lparr>customer_id = ''A'', order_date = Timestamp 0,
       transaction_id = ''T2'', final_amount_inr = 50\<rparr>,
      \<lparr>customer_id = ''B'', order_date = Timestamp (12 * one_day + 5),
       transaction_id = ''T3'', final_amount_inr = 25\<rparr>,
      \<lparr>customer_id = ''C'', order_date = Timestamp (3 * one_day),
       transaction_id = ''T4'', final_amount_inr = 7\<rparr>]"

definition example_dates :: "int list" where
  "example_dates = [10 * one_day, 0, 12 * one_day + 5, 3 * one_day]"

definition example_row_A :: rfm_row where
  "example_row_A =
     \<lparr>rfm_customer_id = ''A'', recency = 13, frequency = 1, monetary = 50,
      r_score = Some 1, f_score = Some 1, m_score = Some 2,
      rfm_score = Some 4, segment = ''At Risk''\<rparr>"

definition example_row_B :: rfm_row where
  "example_row_B =
     \<lparr>rfm_customer_id = ''B'', recency = 1, frequency = 2, monetary = 125,
      r_score = Some 4, f_score = Some 4, m_score = Some 4,
      rfm_score = Some 12, segment = ''Champions''\<rparr>"

definition example_row_C :: rfm_row where
  "example_row_C =
     \<lparr>rfm_customer_id = ''C'', recency = 10, frequency = 1, monetary = 7,
      r_score = Some 3, f_score = Some 2, m_score = Some 1,
      rfm_score = Some 6, segment = ''Potential Loyalists''\<rparr>"

definition example_result :: rfm_result where
  "example_result =
     \<lparr>rfm = [example_row_A, example_row_B, example_row_C],
      total_customers = 3, champion_count = 1, avg_clv = 182 / 3\<rparr>"

text \<open>
  Four customers with one purchase of the same amount each, on four different days:
  the monetary column has a single value.
\<close>

definition single_purchase_frame :: "txn list" where
  "single_purchase_frame =
     [\<lparr>customer_id = ''A'', order_date = Timestamp 0,
       transaction_id = ''T1'', final_amount_inr = 100\<rparr>,
      \<lparr>customer_id = ''B'', order_date = Timestamp one_day,
       transaction_id = ''T2'', final_amount_inr = 100\<rparr>,
      \<lparr>customer_id = ''C'', order_date = Timestamp (2 * one_day),
       transaction_id = ''T3'', final_amount_inr = 100\<rparr>,
      \<lparr>customer_id = ''D'', order_date = Timestamp (3 * one_day),
       transaction_id = ''T4'', final_amount_inr = 100\<rparr>]"





text \<open>A generator for the page that returns constant samples.\<close>

definition constant_generator :: "nat np_random" where
  "constant_generator =
     \<lparr>seed = (\<lambda>s. s),
      exponential = (\<lambda>scale n g. (replicate n scale, g + 1)),
      lognormal = (\<lambda>mean sigma n g. (replicate n mean, g + 1))\<rparr>"


section \<open>Facts about the library operations\<close>

subsection \<open>Dropping duplicate edges\<close>


lemma set_unique: "set (unique xs) = set xs"
proof (induction xs rule: unique.induct)
  case 1
  show ?case by simp
next
  case (2 x xs)
  then show ?case by auto
qed

lemma length_unique_le: "length (unique xs) \<le> length xs"
proof (induction xs rule: unique.induct)
  case 1
  show ?case by simp
next
  case (2 x xs)
  have "length (filter (\<lambda>y. y \<noteq> x) xs) \<le> length xs" by simp
  with 2 have "length (unique (filter (\<lambda>y. y \<noteq> x) xs)) \<le> length xs"
    by (rule le_trans)
  then show ?case by simp
qed

lemma unique_distinct_id: "distinct xs \<Longrightarrow> unique xs = xs"
proof (induction xs)
  case Nil
  show ?case by simp
next
  case (Cons x xs)
  then have "filter (\<lambda>y. y \<noteq> x) xs = xs" by (auto intro: filter_True)
  with Cons show ?case by simp
qed

lemma length_unique_less: "\<not> distinct xs \<Longrightarrow> length (unique xs) < length xs"
proof (induction xs rule: unique.induct)
  case 1
  then show ?case by simp
next
  case (2 x xs)
  show ?case
  proof (cases "x \<in> set xs")
    case True
    then have "length (filter (\<lambda>y. y \<noteq> x) xs) < length xs"
      by (metis (mono_tags, lifting) length_filter_less)
    moreover have "length (unique (filter (\<lambda>y. y \<noteq> x) xs)) \<le> length (filter (\<lambda>y. y \<noteq> x) xs)"
      by (rule length_unique_le)
    ultimately show ?thesis by simp
  next
    case False
    then have f: "filter (\<lambda>y. y \<noteq> x) xs = xs" by (auto intro: filter_True)
    from False 2(2) have "\<not> distinct xs" by simp
    with 2(1) f show ?thesis by simp
  qed
qed

subsection \<open>Quantile edges and bins\<close>

lemma quantile_first: "quantile s 0 q = s ! 0"
  by (simp add: quantile_def)

lemma quantile_last: "0 < q \<Longrightarrow> quantile s q q = s ! (length s - 1)"
  by (simp add: quantile_def)

lemma quantile_ge_first:
  assumes "sorted s" and "s \<noteq> []" and "0 < q" and "k \<le> q"
  shows "s ! 0 \<le> quantile s k q"
proof -
  define n where "n = length s"
  define t where "t = (n - 1) * k"
  define lo where "lo = t div q"
  define hi where "hi = min (lo + 1) (n - 1)"
  define g :: rat where "g = of_nat (t mod q) / of_nat q"
  have npos: "0 < n" using assms(2) by (simp add: n_def)
  have "t \<le> (n - 1) * q" using assms(4) by (simp add: t_def)
  then have "t div q \<le> ((n - 1) * q) div q" by (rule div_le_mono)
  then have lo_le: "lo \<le> n - 1"
    using assms(3) by (simp add: lo_def)
  have lo_lt: "lo < n" using lo_le npos by simp
  have hi_lt: "hi < n" using npos by (simp add: hi_def)
  have lo_hi: "lo \<le> hi" using lo_le by (simp add: hi_def)
  have g0: "0 \<le> g" by (simp add: g_def)
  have q: "quantile s k q = s ! lo + (s ! hi - s ! lo) * g"
    by (simp add: quantile_def Let_def n_def t_def lo_def hi_def g_def)
  have a: "s ! 0 \<le> s ! lo"
    using assms(1) lo_lt by (simp add: sorted_iff_nth_mono n_def)
  have b: "s ! lo \<le> s ! hi"
    using assms(1) lo_hi hi_lt by (simp add: sorted_iff_nth_mono n_def)
  from b g0 have "0 \<le> (s ! hi - s ! lo) * g" by simp
  with a q show ?thesis by simp
qed


lemma quantile_edges_4:
  "quantile_edges xs 4 =
     [quantile (sort xs) 0 4, quantile (sort xs) 1 4, quantile (sort xs) 2 4,
      quantile (sort xs) 3 4, quantile (sort xs) 4 4]"
proof -
  have "[0..<4 + 1] = [0, 1, 2, 3, 4::nat]"
    by (simp add: upt_rec)
  then show ?thesis by (simp add: quantile_edges_def)
qed

lemma sorted_first_le:
  assumes "sorted s" and "x \<in> set s"
  shows "s ! 0 \<le> x"
proof -
  from assms(2) obtain i where "i < length s" and "s ! i = x"
    by (auto simp: in_set_conv_nth)
  with assms(1) show ?thesis by (auto simp: sorted_iff_nth_mono)
qed

lemma sorted_last_ge:
  assumes "sorted s" and "x \<in> set s"
  shows "x \<le> s ! (length s - 1)"
proof -
  from assms(2) obtain i where i: "i < length s" and x: "s ! i = x"
    by (auto simp: in_set_conv_nth)
  then have "i \<le> length s - 1" by simp
  with assms(1) i have "s ! i \<le> s ! (length s - 1)"
    by (simp add: sorted_iff_nth_mono)
  with x show ?thesis by simp
qed

lemma edges_bounds:
  assumes "x \<in> set xs"
  shows "quantile_edges xs 4 ! 0 \<le> x" and "x \<le> quantile_edges xs 4 ! 4"
    and "quantile_edges xs 4 ! 0 \<le> quantile_edges xs 4 ! 1"
proof -
  have s: "sorted (sort xs)" by simp
  have m: "x \<in> set (sort xs)" using assms by simp
  have "xs \<noteq> []" using assms by auto
  then have ne: "sort xs \<noteq> []" by (metis length_0_conv length_sort)
  show "quantile_edges xs 4 ! 0 \<le> x"
    using sorted_first_le [OF s m] by (simp add: quantile_edges_4 quantile_first)
  show "x \<le> quantile_edges xs 4 ! 4"
    using sorted_last_ge [OF s m] by (simp add: quantile_edges_4 quantile_last)
  show "quantile_edges xs 4 ! 0 \<le> quantile_edges xs 4 ! 1"
    using quantile_ge_first [OF s ne, of 4 1] by (simp add: quantile_edges_4 quantile_first)
qed

lemma bin_id_five:
  assumes "e0 \<le> x" and "x \<le> e4" and "e0 \<le> e1"
  shows "bin_id [e0, e1, e2, e3, e4] x =
           (if x \<le> e1 then 1 else if x \<le> e2 then 2 else if x \<le> e3 then 3 else 4)"
  using assms by (auto simp: bin_id_def searchsorted_left_def)

lemma bin_id_quartile_rank:
  assumes "x \<in> set xs"
  shows "bin_id (quantile_edges xs 4) x = quartile_rank xs x"
proof -
  obtain e0 e1 e2 e3 e4 where e: "quantile_edges xs 4 = [e0, e1, e2, e3, e4]"
    by (simp add: quantile_edges_4)
  from edges_bounds [OF assms] e have "e0 \<le> x" "x \<le> e4" "e0 \<le> e1" by simp_all
  then have "bin_id [e0, e1, e2, e3, e4] x =
           (if x \<le> e1 then 1 else if x \<le> e2 then 2 else if x \<le> e3 then 3 else 4)"
    by (rule bin_id_five)
  then show ?thesis by (simp add: quartile_rank_def e)
qed

lemma quartile_rank_range: "1 \<le> quartile_rank xs x \<and> quartile_rank xs x \<le> 4"
  by (simp add: quartile_rank_def Let_def)

lemma length_quantile_edges: "length (quantile_edges xs q) = q + 1"
  by (simp add: quantile_edges_def)

lemma bins_to_cuts_ok:
  assumes "bins_to_cuts xs bins0 labels = Inr ys" and "length labels + 1 = length bins0"
    and "length bins0 \<noteq> 2"
  shows "distinct bins0"
    and "ys = map (\<lambda>x. let i = bin_id bins0 x
                        in if i = length bins0 \<or> i = 0 then None else Some (labels ! (i - 1))) xs"
proof -
  show d: "distinct bins0"
  proof (rule ccontr)
    assume "\<not> distinct bins0"
    then have "length (unique bins0) < length bins0" by (rule length_unique_less)
    with assms show False by (simp add: bins_to_cuts_def Let_def split: if_splits)
  qed
  then have "unique bins0 = bins0" by (rule unique_distinct_id)
  with assms(1) show "ys = map (\<lambda>x. let i = bin_id bins0 x
                        in if i = length bins0 \<or> i = 0 then None else Some (labels ! (i - 1))) xs"
    by (simp add: bins_to_cuts_def Let_def split: if_splits)
qed

lemma qcut_ok:
  assumes "qcut xs 4 labels = Inr ys" and "length labels = 4"
  shows "xs \<noteq> []" and "distinct (quantile_edges xs 4)"
    and "ys = map (\<lambda>x. Some (labels ! (quartile_rank xs x - 1))) xs"
proof -
  show ne: "xs \<noteq> []" using assms by (auto simp: qcut_def)
  with assms(1) have b: "bins_to_cuts xs (quantile_edges xs 4) labels = Inr ys"
    by (simp add: qcut_def)
  have l: "length labels + 1 = length (quantile_edges xs 4)"
    using assms(2) by (simp add: length_quantile_edges)
  have l2: "length (quantile_edges xs 4) \<noteq> 2" by (simp add: length_quantile_edges)
  show "distinct (quantile_edges xs 4)" by (rule bins_to_cuts_ok(1) [OF b l l2])
  have "ys = map (\<lambda>x. let i = bin_id (quantile_edges xs 4) x
                        in if i = length (quantile_edges xs 4) \<or> i = 0 then None
                           else Some (labels ! (i - 1))) xs"
    by (rule bins_to_cuts_ok(2) [OF b l l2])
  also have "\<dots> = map (\<lambda>x. Some (labels ! (quartile_rank xs x - 1))) xs"
  proof (rule map_cong [OF refl])
    fix x assume "x \<in> set xs"
    then have "bin_id (quantile_edges xs 4) x = quartile_rank xs x"
      by (rule bin_id_quartile_rank)
    moreover have "1 \<le> quartile_rank xs x \<and> quartile_rank xs x \<le> 4"
      by (rule quartile_rank_range)
    ultimately show "(let i = bin_id (quantile_edges xs 4) x
                        in if i = length (quantile_edges xs 4) \<or> i = 0 then None
                           else Some (labels ! (i - 1))) = Some (labels ! (quartile_rank xs x - 1))"
      by (simp add: length_quantile_edges)
  qed
  finally show "ys = map (\<lambda>x. Some (labels ! (quartile_rank xs x - 1))) xs" .
qed


lemma labels_desc_nth:
  assumes "1 \<le> r" and "r \<le> 4"
  shows "[4, 3, 2, 1 :: int] ! (r - 1) = 5 - int r"
proof -
  from assms have "r = 1 \<or> r = 2 \<or> r = 3 \<or> r = 4" by arith
  then show ?thesis by auto
qed

lemma labels_asc_nth:
  assumes "1 \<le> r" and "r \<le> 4"
  shows "[1, 2, 3, 4 :: int] ! (r - 1) = int r"
proof -
  from assms have "r = 1 \<or> r = 2 \<or> r = 3 \<or> r = 4" by arith
  then show ?thesis by auto
qed

lemma length_rank_first: "length (rank_first xs) = length xs"
  by (simp add: rank_first_def)

lemma length_columns:
  "length (recency_column ms) = length ms"
  "length (frequency_rank_column ms) = length ms"
  "length (monetary_column ms) = length ms"
  by (simp_all add: recency_column_def frequency_rank_column_def monetary_column_def
      length_rank_first)

section \<open>Facts about a call that returns\<close>

lemma score_table_ok:
  assumes "score_table ms = Inr t"
  shows "length t = length ms"
    and "\<And>i. i < length ms \<Longrightarrow> t ! i = make_row (ms ! i) (scores_of ms i)"
    and "distinct (quantile_edges (recency_column ms) 4)"
    and "distinct (quantile_edges (frequency_rank_column ms) 4)"
    and "distinct (quantile_edges (monetary_column ms) 4)"
proof -
  from assms obtain rs fs mos where
    r: "qcut (recency_column ms) 4 [4, 3, 2, 1] = Inr rs" and
    f: "qcut (frequency_rank_column ms) 4 [1, 2, 3, 4] = Inr fs" and
    m: "qcut (monetary_column ms) 4 [1, 2, 3, 4] = Inr mos" and
    t: "t = map (\<lambda>(m, s). make_row m s) (zip ms (zip rs (zip fs mos)))"
    by (auto simp: score_table_def split: sum.splits)
  have rs: "rs = map (\<lambda>x. Some ([4, 3, 2, 1] ! (quartile_rank (recency_column ms) x - 1)))
                    (recency_column ms)"
    by (rule qcut_ok(3) [OF r]) simp
  have fs: "fs = map (\<lambda>x. Some ([1, 2, 3, 4] ! (quartile_rank (frequency_rank_column ms) x - 1)))
                    (frequency_rank_column ms)"
    by (rule qcut_ok(3) [OF f]) simp
  have mos: "mos = map (\<lambda>x. Some ([1, 2, 3, 4] ! (quartile_rank (monetary_column ms) x - 1)))
                    (monetary_column ms)"
    by (rule qcut_ok(3) [OF m]) simp
  have lr: "length rs = length ms" by (simp add: rs length_columns)
  have lf: "length fs = length ms" by (simp add: fs length_columns)
  have lm: "length mos = length ms" by (simp add: mos length_columns)
  show "length t = length ms" by (simp add: t lr lf lm)
  show "distinct (quantile_edges (recency_column ms) 4)" by (rule qcut_ok(2) [OF r]) simp
  show "distinct (quantile_edges (frequency_rank_column ms) 4)" by (rule qcut_ok(2) [OF f]) simp
  show "distinct (quantile_edges (monetary_column ms) 4)" by (rule qcut_ok(2) [OF m]) simp
  fix i assume i: "i < length ms"
  have ri: "rs ! i = Some (5 - int (quartile_rank (recency_column ms) (recency_column ms ! i)))"
    using i labels_desc_nth quartile_rank_range by (simp add: rs length_columns)
  have fi: "fs ! i = Some (int (quartile_rank (frequency_rank_column ms) (frequency_rank_column ms ! i)))"
    using i labels_asc_nth quartile_rank_range by (simp add: fs length_columns)
  have mi: "mos ! i = Some (int (quartile_rank (monetary_column ms) (monetary_column ms ! i)))"
    using i labels_asc_nth quartile_rank_range by (simp add: mos length_columns)
  show "t ! i = make_row (ms ! i) (scores_of ms i)"
    using i by (simp add: t lr lf lm ri fi mi scores_of_def)
qed

lemma rfm_call_ok:
  assumes "rfm_segmentation_analysis parse df = (df', Inr res)"
  obtains dates where "to_datetime parse (map order_date df) = Inr dates"
    and "df' = set_order_date df dates"
    and "score_table (rfm_metrics (zip df dates)) = Inr (rfm res)"
    and "res = make_result (rfm res)"
  using assms
  by (auto simp: rfm_segmentation_analysis_def make_result_def split: sum.splits)

lemma rfm_row_ok:
  assumes "rfm_segmentation_analysis parse df = (df', Inr res)" and "p \<in> set (rfm res)"
  obtains dates i where "to_datetime parse (map order_date df) = Inr dates"
    and "i < length (rfm_metrics (zip df dates))"
    and "p = make_row (rfm_metrics (zip df dates) ! i) (scores_of (rfm_metrics (zip df dates)) i)"
proof -
  from assms(1) obtain dates where d: "to_datetime parse (map order_date df) = Inr dates"
    and t: "score_table (rfm_metrics (zip df dates)) = Inr (rfm res)"
    by (rule rfm_call_ok)
  from assms(2) obtain i where i: "i < length (rfm res)" and p: "rfm res ! i = p"
    by (auto simp: in_set_conv_nth)
  from i score_table_ok(1) [OF t] have i': "i < length (rfm_metrics (zip df dates))" by simp
  from score_table_ok(2) [OF t i'] p
  have "p = make_row (rfm_metrics (zip df dates) ! i) (scores_of (rfm_metrics (zip df dates)) i)"
    by simp
  with d i' show ?thesis by (rule that)
qed

lemma row_scores:
  assumes "rfm_segmentation_analysis parse df = (df', Inr res)" and "p \<in> set (rfm res)"
  obtains r f m where "r_score p = Some r" and "f_score p = Some f" and "m_score p = Some m"
    and "1 \<le> r" and "r \<le> 4" and "1 \<le> f" and "f \<le> 4" and "1 \<le> m" and "m \<le> 4"
    and "rfm_score p = Some (r + f + m)"
    and "segment p = segment_customer (rfm_score p)"
proof -
  from assms obtain dates i where
    p: "p = make_row (rfm_metrics (zip df dates) ! i) (scores_of (rfm_metrics (zip df dates)) i)"
    by (rule rfm_row_ok)
  define ms where "ms = rfm_metrics (zip df dates)"
  define a where "a = quartile_rank (recency_column ms) (recency_column ms ! i)"
  define b where "b = quartile_rank (frequency_rank_column ms) (frequency_rank_column ms ! i)"
  define c where "c = quartile_rank (monetary_column ms) (monetary_column ms ! i)"
  have ra: "1 \<le> a \<and> a \<le> 4" unfolding a_def by (rule quartile_rank_range)
  have rb: "1 \<le> b \<and> b \<le> 4" unfolding b_def by (rule quartile_rank_range)
  have rc: "1 \<le> c \<and> c \<le> 4" unfolding c_def by (rule quartile_rank_range)
  have s: "scores_of ms i = (Some (5 - int a), Some (int b), Some (int c))"
    by (simp add: scores_of_def a_def b_def c_def)
  have p': "p = make_row (ms ! i) (Some (5 - int a), Some (int b), Some (int c))"
    using p s by (simp add: ms_def)
  show ?thesis
  proof (rule that [of "5 - int a" "int b" "int c"])
    show "r_score p = Some (5 - int a)" by (simp add: p' make_row_def Let_def)
    show "f_score p = Some (int b)" by (simp add: p' make_row_def Let_def)
    show "m_score p = Some (int c)" by (simp add: p' make_row_def Let_def)
    show "rfm_score p = Some (5 - int a + int b + int c)"
      by (simp add: p' make_row_def Let_def score_add_def)
    show "segment p = segment_customer (rfm_score p)" by (simp add: p' make_row_def Let_def)
    show "1 \<le> 5 - int a" using ra by simp
    show "5 - int a \<le> 4" using ra by simp
    show "1 \<le> int b" using rb by simp
    show "int b \<le> 4" using rb by simp
    show "1 \<le> int c" using rc by simp
    show "int c \<le> 4" using rc by simp
  qed
qed

subsection \<open>The aggregated table\<close>

lemma to_datetime_length:
  assumes "to_datetime parse cells = Inr dates"
  shows "length dates = length cells"
  using assms by (auto simp: to_datetime_def split: if_splits)















subsection \<open>Scores, customers and metrics of the returned table\<close>




subsection \<open>Ascending edges and first-come ranks\<close>










subsection \<open>Errors, a second call, and the frame after the call\<close>

lemma qcut_error:
  assumes "qcut xs q labels = Inl e"
  shows "e = ValueError_bin_labels"
  using assms by (auto simp: qcut_def bins_to_cuts_def Let_def split: if_splits)

lemma score_table_error:
  assumes "score_table ms = Inl e"
  shows "e = ValueError_bin_labels"
  using assms by (auto simp: score_table_def split: sum.splits dest: qcut_error)

lemma score_table_duplicate:
  assumes "\<not> distinct (quantile_edges (recency_column ms) 4)
         \<or> \<not> distinct (quantile_edges (frequency_rank_column ms) 4)
         \<or> \<not> distinct (quantile_edges (monetary_column ms) 4)"
  shows "score_table ms = Inl ValueError_bin_labels"
proof (cases "score_table ms")
  case (Inl e)
  then show ?thesis using score_table_error by simp
next
  case (Inr t)
  from score_table_ok(3-5) [OF Inr] assms show ?thesis by blast
qed

lemma row_key_columns:
  "map (\<lambda>x. fst (snd x)) (map row_key xs) = map snd xs"
  "map (\<lambda>x. snd (snd x)) (map row_key xs) = map (\<lambda>(r, d). final_amount_inr r) xs"
  "map fst (map row_key xs) = map (\<lambda>(r, d). customer_id r) xs"
  by (simp_all add: row_key_def case_prod_unfold)

lemma row_key_filter:
  "filter (\<lambda>x. fst x = k) (map row_key rows) = map row_key (group_rows rows k)"
  by (simp add: filter_map group_rows_def comp_def row_key_def case_prod_unfold)

lemma rfm_metrics_row_key:
  "rfm_metrics rows =
     (let ks = map row_key rows;
          ref = reference_date (map (\<lambda>x. fst (snd x)) ks)
      in map (\<lambda>k. let g = filter (\<lambda>x. fst x = k) ks
                  in \<lparr>m_customer_id = k,
                      m_recency = days (ref - Max (set (map (\<lambda>x. fst (snd x)) g))),
                      m_frequency = int (length g),
                      m_monetary = sum_list (map (\<lambda>x. snd (snd x)) g)\<rparr>)
             (sort (remdups (map fst ks))))"
  unfolding rfm_metrics_def group_keys_def Let_def
  by (simp only: row_key_filter row_key_columns length_map)

lemma rfm_metrics_cong:
  assumes "map row_key rows = map row_key rows'"
  shows "rfm_metrics rows = rfm_metrics rows'"
  by (simp only: rfm_metrics_row_key assms)

lemma set_order_date_length:
  assumes "length dates = length df"
  shows "length (set_order_date df dates) = length df"
  using assms by (simp add: set_order_date_def)

lemma set_order_date_nth:
  assumes "length dates = length df" and "i < length df"
  shows "set_order_date df dates ! i = (df ! i)\<lparr>order_date := Timestamp (dates ! i)\<rparr>"
  using assms by (simp add: set_order_date_def)

lemma set_order_date_columns:
  assumes "length dates = length df"
  shows "map customer_id (set_order_date df dates) = map customer_id df"
    and "map transaction_id (set_order_date df dates) = map transaction_id df"
    and "map final_amount_inr (set_order_date df dates) = map final_amount_inr df"
    and "map txn.more (set_order_date df dates) = map txn.more df"
    and "map order_date (set_order_date df dates) = map Timestamp dates"
  using assms
  by (auto intro!: nth_equalityI simp: set_order_date_length set_order_date_nth)

lemma to_datetime_timestamps: "to_datetime parse (map Timestamp dates) = Inr dates"
proof -
  have "list_all (\<lambda>c. to_datetime_cell parse c \<noteq> None) (map Timestamp dates)"
    by (simp add: list_all_iff to_datetime_cell_def)
  moreover have "map (\<lambda>c. the (to_datetime_cell parse c)) (map Timestamp dates) = dates"
    by (simp add: to_datetime_cell_def comp_def)
  ultimately show ?thesis by (simp add: to_datetime_def)
qed

lemma set_order_date_idem:
  assumes "length dates = length df"
  shows "set_order_date (set_order_date df dates) dates = set_order_date df dates"
  using assms
  by (auto intro!: nth_equalityI simp: set_order_date_length set_order_date_nth)

lemma row_key_set_order_date:
  assumes "length dates = length df"
  shows "map row_key (zip (set_order_date df dates) dates) = map row_key (zip df dates)"
  using assms
  by (auto intro!: nth_equalityI simp: set_order_date_length set_order_date_nth row_key_def)

lemma rerun_facts:
  "rfm_segmentation_analysis parse (fst (rfm_segmentation_analysis parse df))
     = rfm_segmentation_analysis parse df"
  "to_datetime parse (map order_date (fst (rfm_segmentation_analysis parse df)))
     = to_datetime parse (map order_date df)"
proof -
  show "rfm_segmentation_analysis parse (fst (rfm_segmentation_analysis parse df))
     = rfm_segmentation_analysis parse df"
  proof (cases "to_datetime parse (map order_date df)")
    case (Inl e)
    then show ?thesis by (simp add: rfm_segmentation_analysis_def)
  next
    case (Inr dates)
    have l: "length dates = length df" using to_datetime_length [OF Inr] by simp
    have f: "fst (rfm_segmentation_analysis parse df) = set_order_date df dates"
      using Inr by (simp add: rfm_segmentation_analysis_def)
    have d: "to_datetime parse (map order_date (set_order_date df dates)) = Inr dates"
      by (simp only: set_order_date_columns(5) [OF l] to_datetime_timestamps)
    have m: "rfm_metrics (zip (set_order_date df dates) dates) = rfm_metrics (zip df dates)"
      by (rule rfm_metrics_cong) (rule row_key_set_order_date [OF l])
    show ?thesis
      unfolding f
      by (simp add: rfm_segmentation_analysis_def d Inr m set_order_date_idem [OF l])
  qed
  show "to_datetime parse (map order_date (fst (rfm_segmentation_analysis parse df)))
     = to_datetime parse (map order_date df)"
  proof (cases "to_datetime parse (map order_date df)")
    case (Inl e)
    then show ?thesis by (simp add: rfm_segmentation_analysis_def)
  next
    case (Inr dates)
    have l: "length dates = length df" using to_datetime_length [OF Inr] by simp
    have f: "fst (rfm_segmentation_analysis parse df) = set_order_date df dates"
      using Inr by (simp add: rfm_segmentation_analysis_def)
    show ?thesis
      unfolding f by (simp only: set_order_date_columns(5) [OF l] to_datetime_timestamps Inr)
  qed
qed

lemma frame_after_facts:
  fixes df :: "'a txn_scheme list" and parse :: "string \<Rightarrow> int option"
  defines "df' \<equiv> fst (rfm_segmentation_analysis parse df)"
  shows "length df' = length df"
    and "map customer_id df' = map customer_id df"
    and "map transaction_id df' = map transaction_id df"
    and "map final_amount_inr df' = map final_amount_inr df"
    and "map txn.more df' = map txn.more df"
    and "\<And>dates. to_datetime parse (map order_date df) = Inr dates
           \<Longrightarrow> map order_date df' = map Timestamp dates"
    and "\<And>e. to_datetime parse (map order_date df) = Inl e \<Longrightarrow> df' = df"
    and "list_all is_timestamp (map order_date df) \<Longrightarrow> df' = df"
proof -
  have c: "length df' = length df \<and> map customer_id df' = map customer_id df \<and>
    map transaction_id df' = map transaction_id df \<and>
    map final_amount_inr df' = map final_amount_inr df \<and> map txn.more df' = map txn.more df"
  proof (cases "to_datetime parse (map order_date df)")
    case (Inl e)
    then show ?thesis by (simp add: df'_def rfm_segmentation_analysis_def)
  next
    case (Inr dates)
    have l: "length dates = length df" using to_datetime_length [OF Inr] by simp
    have f: "df' = set_order_date df dates"
      using Inr by (simp add: df'_def rfm_segmentation_analysis_def)
    show ?thesis
      unfolding f using set_order_date_columns(1-4) [OF l] set_order_date_length [OF l] by simp
  qed
  then show "length df' = length df" "map customer_id df' = map customer_id df"
    "map transaction_id df' = map transaction_id df"
    "map final_amount_inr df' = map final_amount_inr df" "map txn.more df' = map txn.more df"
    by simp_all
  show o: "map order_date df' = map Timestamp dates"
    if "to_datetime parse (map order_date df) = Inr dates" for dates
  proof -
    have l: "length dates = length df" using to_datetime_length [OF that] by simp
    have f: "df' = set_order_date df dates"
      using that by (simp add: df'_def rfm_segmentation_analysis_def)
    show ?thesis unfolding f by (rule set_order_date_columns(5) [OF l])
  qed
  show "df' = df" if "to_datetime parse (map order_date df) = Inl e" for e
    using that by (simp add: df'_def rfm_segmentation_analysis_def)
  show "df' = df" if ts: "list_all is_timestamp (map order_date df)"
  proof -
    have cell: "Timestamp (the (to_datetime_cell parse c)) = c \<and> to_datetime_cell parse c \<noteq> None"
      if "is_timestamp c" for c
      using that by (cases c) (simp_all add: is_timestamp_def to_datetime_cell_def)
    have ok: "list_all (\<lambda>c. to_datetime_cell parse c \<noteq> None) (map order_date df)"
      using ts cell by (auto simp: list_all_iff)
    define dates where "dates = map (\<lambda>c. the (to_datetime_cell parse c)) (map order_date df)"
    have d: "to_datetime parse (map order_date df) = Inr dates"
      using ok by (simp add: to_datetime_def dates_def)
    have "map order_date df' = map Timestamp dates" by (rule o [OF d])
    also have "\<dots> = map order_date df"
      using ts cell by (auto simp: dates_def list_all_iff)
    finally have od: "map order_date df' = map order_date df" .
    show ?thesis
    proof (rule nth_equalityI)
      show "length df' = length df" using c by simp
    next
      fix i assume i: "i < length df'"
      then have i': "i < length df" using c by simp
      have "customer_id (df' ! i) = customer_id (df ! i)"
        using c i i' by (metis nth_map)
      moreover have "transaction_id (df' ! i) = transaction_id (df ! i)"
        using c i i' by (metis nth_map)
      moreover have "final_amount_inr (df' ! i) = final_amount_inr (df ! i)"
        using c i i' by (metis nth_map)
      moreover have "txn.more (df' ! i) = txn.more (df ! i)"
        using c i i' by (metis nth_map)
      moreover have "order_date (df' ! i) = order_date (df ! i)"
        using od i i' by (metis nth_map)
      ultimately show "df' ! i = df ! i" by (simp add: txn.equality)
    qed
  qed
qed

subsection \<open>The page's own labelling\<close>

text \<open>
  The page labels a customer from the three scores, not from their sum: two triples
  with the sum 11 get different labels. Its scores come from five labels.
\<close>

lemma eda_segment_not_by_sum:
  "eda_segment_customer 5 5 1 = ''At-Risk (At Risk)'' \<and>
   eda_segment_customer 4 4 3 = ''Loyal (Loyal Customers)''"
  by (simp add: eda_segment_customer_def)

subsection \<open>The example call\<close>

lemma example_run:
  "rfm_segmentation_analysis example_parse example_frame =
     (example_frame_after, Inr example_result)"
  by code_simp

lemma example_dates_run:
  "to_datetime example_parse (map order_date example_frame) = Inr example_dates"
  by code_simp

lemma single_dates_run:
  "to_datetime example_parse (map order_date single_purchase_frame)
     = Inr [0, one_day, 2 * one_day, 3 * one_day]"
  by code_simp

lemma single_monetary_edges:
  "quantile_edges (monetary_column (rfm_metrics (zip single_purchase_frame
      [0, one_day, 2 * one_day, 3 * one_day]))) 4 = [100, 100, 100, 100, 100]"
  by code_simp

section \<open>The claims\<close>

text \<open>
  C2. For every customer profile of a call that returns, the combined score is a number
  and the segment label follows from it by the fixed thresholds: at least 10 is
  Champions, 8 or 9 is Loyal Customers, 6 or 7 is Potential Loyalists, 4 or 5 is At Risk,
  and below 4 is Lost. The nested function maps every integer score \<open>k\<close> this way.
\<close>

theorem segment_by_thresholds:
  assumes "rfm_segmentation_analysis parse df = (df', Inr res)" and "p \<in> set (rfm res)"
  shows "(\<exists>s. rfm_score p = Some s \<and>
           (10 \<le> s \<longrightarrow> segment p = ''Champions'') \<and>
           (8 \<le> s \<and> s < 10 \<longrightarrow> segment p = ''Loyal Customers'') \<and>
           (6 \<le> s \<and> s < 8 \<longrightarrow> segment p = ''Potential Loyalists'') \<and>
           (4 \<le> s \<and> s < 6 \<longrightarrow> segment p = ''At Risk'') \<and>
           (s < 4 \<longrightarrow> segment p = ''Lost'')) \<and>
         (10 \<le> k \<longrightarrow> segment_customer (Some k) = ''Champions'') \<and>
         (8 \<le> k \<and> k < 10 \<longrightarrow> segment_customer (Some k) = ''Loyal Customers'') \<and>
         (6 \<le> k \<and> k < 8 \<longrightarrow> segment_customer (Some k) = ''Potential Loyalists'') \<and>
         (4 \<le> k \<and> k < 6 \<longrightarrow> segment_customer (Some k) = ''At Risk'') \<and>
         (k < 4 \<longrightarrow> segment_customer (Some k) = ''Lost'')"
proof -
  from assms obtain r f m where s: "rfm_score p = Some (r + f + m)"
    and g: "segment p = segment_customer (rfm_score p)"
    by (rule row_scores)
  have "\<exists>s. rfm_score p = Some s \<and>
           (10 \<le> s \<longrightarrow> segment p = ''Champions'') \<and>
           (8 \<le> s \<and> s < 10 \<longrightarrow> segment p = ''Loyal Customers'') \<and>
           (6 \<le> s \<and> s < 8 \<longrightarrow> segment p = ''Potential Loyalists'') \<and>
           (4 \<le> s \<and> s < 6 \<longrightarrow> segment p = ''At Risk'') \<and>
           (s < 4 \<longrightarrow> segment p = ''Lost'')"
    by (rule exI [of _ "r + f + m"]) (simp add: s g segment_customer_def score_ge_def)
  then show ?thesis by (simp add: segment_customer_def score_ge_def)
qed

theorem segment_by_thresholds_witness:
  "rfm_segmentation_analysis example_parse example_frame = (example_frame_after, Inr example_result)
   \<and> example_row_A \<in> set (rfm example_result)
   \<and> rfm_score example_row_A = Some 4
   \<and> segment example_row_A = ''At Risk''"
proof -
  have m: "example_row_A \<in> set (rfm example_result)" by (simp add: example_result_def)
  from segment_by_thresholds [OF example_run m]
  have "segment example_row_A = ''At Risk''" by (simp add: example_row_A_def)
  with example_run m show ?thesis by (simp add: example_row_A_def)
qed









text \<open>
  C3. The claim is that a metric with too few distinct values for four bins still yields
  a profile table. The code drops the duplicate edges and then fails the label check
  of \<open>qcut\<close>: whenever the five edges of one of the three scored columns are not
  distinct, the call raises \<open>ValueError\<close> and returns no table.
\<close>

theorem duplicate_edges_raise:
  assumes "to_datetime parse (map order_date df) = Inr dates"
    and "\<not> distinct (quantile_edges (recency_column (rfm_metrics (zip df dates))) 4)
       \<or> \<not> distinct (quantile_edges (frequency_rank_column (rfm_metrics (zip df dates))) 4)
       \<or> \<not> distinct (quantile_edges (monetary_column (rfm_metrics (zip df dates))) 4)"
  shows "snd (rfm_segmentation_analysis parse df) = Inl ValueError_bin_labels"
  using assms(1) score_table_duplicate [OF assms(2)]
  by (simp add: rfm_segmentation_analysis_def)

theorem duplicate_edges_raise_witness:
  "to_datetime example_parse (map order_date single_purchase_frame)
     = Inr [0, one_day, 2 * one_day, 3 * one_day]
   \<and> quantile_edges (monetary_column (rfm_metrics (zip single_purchase_frame
        [0, one_day, 2 * one_day, 3 * one_day]))) 4 = [100, 100, 100, 100, 100]
   \<and> snd (rfm_segmentation_analysis example_parse single_purchase_frame)
        = Inl ValueError_bin_labels"
proof -
  have "\<not> distinct (quantile_edges (monetary_column (rfm_metrics (zip single_purchase_frame
        [0, one_day, 2 * one_day, 3 * one_day]))) 4)"
    by (simp add: single_monetary_edges)
  then have "snd (rfm_segmentation_analysis example_parse single_purchase_frame)
        = Inl ValueError_bin_labels"
    using duplicate_edges_raise [OF single_dates_run] by blast
  with single_dates_run single_monetary_edges show ?thesis by blast
qed


text \<open>
  C7. A second call on the frame that the first call left behind returns what the first
  call returned, and leaves the frame as the first call left it; the converted dates,
  and with them the reference date, are those of the first call.
\<close>

theorem rerun_same_output:
  "rfm_segmentation_analysis parse (fst (rfm_segmentation_analysis parse df))
     = rfm_segmentation_analysis parse df
   \<and> to_datetime parse (map order_date (fst (rfm_segmentation_analysis parse df)))
     = to_datetime parse (map order_date df)"
  using rerun_facts [of parse df] by blast

theorem rerun_same_output_witness:
  "rfm_segmentation_analysis example_parse example_frame_after
     = (example_frame_after, Inr example_result)
   \<and> to_datetime example_parse (map order_date example_frame_after) = Inr example_dates"
  using rerun_same_output [of example_parse example_frame]
  by (simp add: example_run example_dates_run)

text \<open>
  C8, as stated: the caller's frame is the same after the call. It is not: a date held
  as text is a timestamp afterwards.
\<close>

theorem caller_frame_changed:
  "fst (rfm_segmentation_analysis example_parse example_frame) \<noteq> example_frame"
proof -
  have "fst (rfm_segmentation_analysis example_parse example_frame) = example_frame_after"
    by (simp add: example_run)
  moreover have "example_frame_after \<noteq> example_frame"
    by (simp add: example_frame_def example_frame_after_def)
  ultimately show ?thesis by simp
qed

text \<open>
  C8, amended. The call keeps the number of rows and every column but \<open>order_date\<close>;
  it overwrites \<open>order_date\<close> with its conversion by \<open>pd.to_datetime\<close> when the
  conversion succeeds, and leaves the frame as it was when the conversion raises or
  when the column held timestamps already.
\<close>

theorem frame_after_call:
  assumes "df' = fst (rfm_segmentation_analysis parse df)"
  shows "length df' = length df \<and>
         map customer_id df' = map customer_id df \<and>
         map transaction_id df' = map transaction_id df \<and>
         map final_amount_inr df' = map final_amount_inr df \<and>
         map txn.more df' = map txn.more df \<and>
         (\<forall>dates. to_datetime parse (map order_date df) = Inr dates
            \<longrightarrow> map order_date df' = map Timestamp dates) \<and>
         (\<forall>e. to_datetime parse (map order_date df) = Inl e \<longrightarrow> df' = df) \<and>
         (list_all is_timestamp (map order_date df) \<longrightarrow> df' = df)"
  unfolding assms using frame_after_facts [where df = df and parse = parse] by blast

theorem frame_after_call_witness:
  "to_datetime example_parse (map order_date example_frame) = Inr example_dates
   \<and> map order_date (fst (rfm_segmentation_analysis example_parse example_frame))
       = map Timestamp example_dates
   \<and> list_all is_timestamp (map order_date example_frame_after)
   \<and> fst (rfm_segmentation_analysis example_parse example_frame_after) = example_frame_after"
proof -
  have t: "list_all is_timestamp (map order_date example_frame_after)"
    by (simp add: example_frame_after_def is_timestamp_def)
  from frame_after_call [OF refl, of example_parse example_frame] example_dates_run
  have a: "map order_date (fst (rfm_segmentation_analysis example_parse example_frame))
       = map Timestamp example_dates" by blast
  from frame_after_call [OF refl, of example_parse example_frame_after] t
  have b: "fst (rfm_segmentation_analysis example_parse example_frame_after) = example_frame_after"
    by blast
  from example_dates_run a t b show ?thesis by blast
qed




text \<open>
  C10. The page \<open>eda_q3\<close> seeds the generator with 42 and scores the sample it draws:
  for any two states of the process, whatever frame is loaded and whatever the
  generator's state was, the scored table is the same and so is the generator's state
  afterwards; the loaded frame is left as it was.
\<close>

theorem eda_q3_ignores_state:
  "snd (eda_q3 np st1) = snd (eda_q3 np st2)
   \<and> random_state (fst (eda_q3 np st1)) = random_state (fst (eda_q3 np st2))
   \<and> loaded_df (fst (eda_q3 np st1)) = loaded_df st1"
  by (simp add: eda_q3_def Let_def split: prod.splits)

theorem eda_q3_ignores_state_witness:
  "snd (eda_q3 constant_generator \<lparr>random_state = 0, loaded_df = example_frame\<rparr>)
     = snd (eda_q3 constant_generator \<lparr>random_state = 7, loaded_df = single_purchase_frame\<rparr>)"
  using eda_q3_ignores_state
    [of constant_generator "\<lparr>random_state = 0, loaded_df = example_frame\<rparr>"
        "\<lparr>random_state = 7, loaded_df = single_purchase_frame\<rparr>"]
  by blast

end
